theory Spec2Isabelle
  imports Main "HOL-Library.Word"
begin

unbundle bit_operations_syntax

section \<open>The platform window service\<close>

text \<open>
  \<^verbatim>\<open>window_utils.py\<close> reaches the operating system through \<^verbatim>\<open>ctypes.windll\<close>. The
  foreign functions it calls are modelled by an in-memory registry: the top-level windows
  in the order \<^verbatim>\<open>EnumWindows\<close> reports them, the attributes of each window, the process
  table, and the table of open process handles together with a log of the kernel32 calls
  that deal with handles.

  Values that cross the foreign-function boundary as a C \<^verbatim>\<open>int\<close> or \<^verbatim>\<open>unsigned long\<close>
  (window handles, process identifiers, the alpha value) are 32-bit words. Where the
  Python code computes with such a value (\<^verbatim>\<open>style & WS_EX_TOOLWINDOW\<close>,
  \<^verbatim>\<open>... | WS_EX_LAYERED\<close>, \<^verbatim>\<open>length + 1\<close>) it is a Python integer: \<open>sint\<close> of the
  word on the way in (the default result type \<^verbatim>\<open>c_int\<close>), \<open>word_of_int\<close> on the way out.
  Text is a list of characters; a buffer is a list of cells in which \<open>NUL\<close> terminates the
  text.
\<close>

type_synonym hwnd = "32 word"
type_synonym pid = "32 word"
type_synonym handle = int

record window_rec =
  visible :: bool
  exstyle :: "32 word"
  owner :: hwnd
  window_title :: string
  alpha :: "8 word option"
  owner_pid :: pid

record process_rec =
  query_access :: bool
  image_path :: "string option"

datatype kernel_call =
    Opened handle
  | OpenFailed
  | Queried handle bool
  | Closed handle bool

record os_state =
  zorder :: "hwnd list"
  window :: "hwnd \<rightharpoonup> window_rec"
  process :: "pid \<rightharpoonup> process_rec"
  open_handles :: "(handle \<times> pid) list"
  calls :: "kernel_call list"

datatype py_error = ValueError | IndexError

subsection \<open>Constants of the module\<close>

definition WS_EX_LAYERED :: int where
  "WS_EX_LAYERED = 0x00080000"

definition LWA_ALPHA :: int where
  "LWA_ALPHA = 0x00000002"

definition GWL_EXSTYLE :: int where
  "GWL_EXSTYLE = -20"

definition WS_EX_TOOLWINDOW :: int where
  "WS_EX_TOOLWINDOW = 0x00000080"

definition GW_OWNER :: int where
  "GW_OWNER = 4"

definition PROCESS_QUERY_LIMITED_INFORMATION :: int where
  "PROCESS_QUERY_LIMITED_INFORMATION = 0x1000"

definition NUL :: char where
  "NUL = CHR 0x00"

definition backslash :: char where
  "backslash = CHR 0x5C"

subsection \<open>user32\<close>

text \<open>\<^verbatim>\<open>IsWindowVisible\<close>: nonzero when the window exists and is visible.\<close>

definition IsWindowVisible :: "os_state \<Rightarrow> hwnd \<Rightarrow> int" where
  "IsWindowVisible os h =
     (case window os h of None \<Rightarrow> 0 | Some w \<Rightarrow> if visible w then 1 else 0)"

text \<open>\<^verbatim>\<open>GetWindowLongPtrW\<close>: the extended style at index \<open>GWL_EXSTYLE\<close>, 0 on failure.\<close>

definition GetWindowLongPtrW :: "os_state \<Rightarrow> hwnd \<Rightarrow> int \<Rightarrow> int" where
  "GetWindowLongPtrW os h nIndex =
     (case window os h of
        None \<Rightarrow> 0
      | Some w \<Rightarrow> if nIndex = GWL_EXSTYLE then sint (exstyle w) else 0)"

definition GetWindowLongPtrA :: "os_state \<Rightarrow> hwnd \<Rightarrow> int \<Rightarrow> int" where
  "GetWindowLongPtrA os h nIndex = GetWindowLongPtrW os h nIndex"

text \<open>\<^verbatim>\<open>SetWindowLongPtrA\<close>: stores the new value, marshalled to 32 bits; returns the
  previous one, 0 on failure.\<close>

definition SetWindowLongPtrA :: "os_state \<Rightarrow> hwnd \<Rightarrow> int \<Rightarrow> int \<Rightarrow> int \<times> os_state" where
  "SetWindowLongPtrA os h nIndex dwNewLong =
     (case window os h of
        None \<Rightarrow> (0, os)
      | Some w \<Rightarrow>
          if nIndex = GWL_EXSTYLE
          then (sint (exstyle w),
                os\<lparr>window := (window os)(h \<mapsto> w\<lparr>exstyle := word_of_int dwNewLong\<rparr>)\<rparr>)
          else (0, os))"

text \<open>\<^verbatim>\<open>SetLayeredWindowAttributes\<close>: on a layered window, with \<open>LWA_ALPHA\<close> among the
  flags, the low byte of \<open>bAlpha\<close> becomes the window's alpha value.\<close>

definition SetLayeredWindowAttributes ::
  "os_state \<Rightarrow> hwnd \<Rightarrow> int \<Rightarrow> 32 word \<Rightarrow> int \<Rightarrow> int \<times> os_state" where
  "SetLayeredWindowAttributes os h crKey bAlpha dwFlags =
     (case window os h of
        None \<Rightarrow> (0, os)
      | Some w \<Rightarrow>
          if sint (exstyle w) AND WS_EX_LAYERED = 0 then (0, os)
          else if dwFlags AND LWA_ALPHA \<noteq> 0
          then (1, os\<lparr>window := (window os)(h \<mapsto> w\<lparr>alpha := Some (ucast bAlpha)\<rparr>)\<rparr>)
          else (1, os))"

text \<open>\<^verbatim>\<open>GetWindow\<close> with \<open>GW_OWNER\<close>: the owner's handle, 0 when there is none.\<close>

definition GetWindow :: "os_state \<Rightarrow> hwnd \<Rightarrow> int \<Rightarrow> hwnd" where
  "GetWindow os h uCmd =
     (case window os h of
        None \<Rightarrow> 0
      | Some w \<Rightarrow> if uCmd = GW_OWNER then owner w else 0)"

text \<open>\<^verbatim>\<open>GetWindowTextLengthW\<close>: the length of the title, 0 for no window.\<close>

definition GetWindowTextLengthW :: "os_state \<Rightarrow> hwnd \<Rightarrow> int" where
  "GetWindowTextLengthW os h =
     (case window os h of None \<Rightarrow> 0 | Some w \<Rightarrow> int (length (window_title w)))"

text \<open>\<^verbatim>\<open>GetWindowTextW\<close>: copies at most \<open>nMaxCount - 1\<close> characters of the title into the
  buffer and terminates them; returns the number copied. Nothing is written for no
  window or a buffer of no cells.\<close>

definition GetWindowTextW :: "os_state \<Rightarrow> hwnd \<Rightarrow> string \<Rightarrow> int \<Rightarrow> int \<times> string" where
  "GetWindowTextW os h buff nMaxCount =
     (case window os h of
        None \<Rightarrow> (0, buff)
      | Some w \<Rightarrow>
          if nMaxCount \<le> 0 then (0, buff)
          else let k = min (length (window_title w)) (nat (nMaxCount - 1))
               in (int k, take k (window_title w) @ [NUL] @ drop (Suc k) buff))"

text \<open>\<^verbatim>\<open>GetWindowThreadProcessId\<close>: writes the owning process identifier through the
  pointer when the window exists. The thread identifier it returns is ignored by the
  module; the function here returns the new content of the cell.\<close>

definition GetWindowThreadProcessId :: "os_state \<Rightarrow> hwnd \<Rightarrow> pid \<Rightarrow> pid" where
  "GetWindowThreadProcessId os h cell =
     (case window os h of None \<Rightarrow> cell | Some w \<Rightarrow> owner_pid w)"

text \<open>\<^verbatim>\<open>EnumWindows\<close>: calls the callback on each top-level window in turn, until it
  returns false. The callback's closure state is threaded through.\<close>

fun EnumWindows_walk :: "(hwnd \<Rightarrow> 's \<Rightarrow> bool \<times> 's) \<Rightarrow> hwnd list \<Rightarrow> 's \<Rightarrow> 's" where
  "EnumWindows_walk cb [] s = s"
| "EnumWindows_walk cb (h # hs) s =
     (case cb h s of (continue, s') \<Rightarrow> if continue then EnumWindows_walk cb hs s' else s')"

definition EnumWindows :: "os_state \<Rightarrow> (hwnd \<Rightarrow> int \<Rightarrow> 's \<Rightarrow> bool \<times> 's) \<Rightarrow> int \<Rightarrow> 's \<Rightarrow> 's" where
  "EnumWindows os lpEnumFunc lParam s =
     EnumWindows_walk (\<lambda>h. lpEnumFunc h lParam) (zorder os) s"

subsection \<open>kernel32\<close>

text \<open>A handle the table does not hold: above every open one, and never 0.\<close>

definition new_handle :: "(handle \<times> pid) list \<Rightarrow> handle" where
  "new_handle hs = fold max (map fst hs) 0 + 4"

text \<open>\<^verbatim>\<open>OpenProcess\<close>: fails (returns 0) for the idle process 0, for an unknown process
  and when the requested access is not granted.\<close>

definition OpenProcess :: "os_state \<Rightarrow> int \<Rightarrow> bool \<Rightarrow> pid \<Rightarrow> handle \<times> os_state" where
  "OpenProcess os dwDesiredAccess bInheritHandle p =
     (if p \<noteq> 0 \<and> (case process os p of None \<Rightarrow> False | Some pr \<Rightarrow> query_access pr)
      then let h = new_handle (open_handles os)
           in (h, os\<lparr>open_handles := (h, p) # open_handles os,
                      calls := calls os @ [Opened h]\<rparr>)
      else (0, os\<lparr>calls := calls os @ [OpenFailed]\<rparr>))"

text \<open>\<^verbatim>\<open>QueryFullProcessImageNameW\<close>: on success the path and its terminator are in the
  buffer and the size cell holds the number of characters written, the terminator not
  counted. It fails, writing nothing, for a handle that is not open, a process whose
  image name is not available, and a buffer too small for the path and its terminator.\<close>

definition QueryFullProcessImageNameW ::
  "os_state \<Rightarrow> handle \<Rightarrow> int \<Rightarrow> string \<Rightarrow> nat \<Rightarrow> (bool \<times> string \<times> nat) \<times> os_state" where
  "QueryFullProcessImageNameW os h dwFlags buffer lpdwSize =
     (case (case map_of (open_handles os) h of
              None \<Rightarrow> None
            | Some p \<Rightarrow> (case process os p of None \<Rightarrow> None | Some pr \<Rightarrow> image_path pr)) of
        None \<Rightarrow> ((False, buffer, lpdwSize), os\<lparr>calls := calls os @ [Queried h False]\<rparr>)
      | Some path \<Rightarrow>
          if length path < lpdwSize
          then ((True, path @ [NUL] @ drop (Suc (length path)) buffer, length path),
                os\<lparr>calls := calls os @ [Queried h True]\<rparr>)
          else ((False, buffer, lpdwSize), os\<lparr>calls := calls os @ [Queried h False]\<rparr>))"

text \<open>\<^verbatim>\<open>CloseHandle\<close>: removes an open handle from the table.\<close>

definition CloseHandle :: "os_state \<Rightarrow> handle \<Rightarrow> bool \<times> os_state" where
  "CloseHandle os h =
     (if h \<in> fst ` set (open_handles os)
      then (True, os\<lparr>open_handles := filter (\<lambda>e. fst e \<noteq> h) (open_handles os),
                      calls := calls os @ [Closed h True]\<rparr>)
      else (False, os\<lparr>calls := calls os @ [Closed h False]\<rparr>))"

section \<open>Python and ctypes\<close>

text \<open>\<^verbatim>\<open>ctypes.create_unicode_buffer(size)\<close>: \<open>size\<close> cells, all \<open>NUL\<close>; a negative size
  raises \<open>ValueError\<close>.\<close>

definition create_unicode_buffer :: "int \<Rightarrow> py_error + string" where
  "create_unicode_buffer n =
     (if n < 0 then Inl ValueError else Inr (replicate (nat n) NUL))"

text \<open>\<^verbatim>\<open>buff.value\<close>: the text up to the first terminator.\<close>

definition buffer_value :: "string \<Rightarrow> string" where
  "buffer_value buff = takeWhile (\<lambda>c. c \<noteq> NUL) buff"

text \<open>\<^verbatim>\<open>s.split(sep)\<close> for a separator of one character.\<close>

fun str_split :: "string \<Rightarrow> char \<Rightarrow> string list" where
  "str_split [] sep = [[]]"
| "str_split (c # cs) sep =
     (if c = sep then [] # str_split cs sep
      else (case str_split cs sep of
              [] \<Rightarrow> [[c]]
            | p # ps \<Rightarrow> (c # p) # ps))"

text \<open>\<^verbatim>\<open>xs[-1]\<close>: the last element; \<open>IndexError\<close> on the empty list.\<close>

definition index_last :: "'a list \<Rightarrow> py_error + 'a" where
  "index_last xs = (if xs = [] then Inl IndexError else Inr (last xs))"

text \<open>A callback made with \<^verbatim>\<open>ctypes.WINFUNCTYPE(c_bool, c_int, c_int)\<close>: an exception
  in the Python function is reported and does not propagate into the caller; the
  enumeration goes on with the state as the function left it.\<close>

definition WINFUNCTYPE ::
  "(hwnd \<Rightarrow> int \<Rightarrow> 's \<Rightarrow> py_error + (bool \<times> 's)) \<Rightarrow> hwnd \<Rightarrow> int \<Rightarrow> 's \<Rightarrow> bool \<times> 's" where
  "WINFUNCTYPE f h l s = (case f h l s of Inl e \<Rightarrow> (True, s) | Inr r \<Rightarrow> r)"

section \<open>The module\<close>

definition get_title_from_hwnd :: "os_state \<Rightarrow> hwnd \<Rightarrow> py_error + string" where
  "get_title_from_hwnd os hwnd =
     (let len = GetWindowTextLengthW os hwnd in
      case create_unicode_buffer (len + 1) of
        Inl e \<Rightarrow> Inl e
      | Inr buff \<Rightarrow>
          (case GetWindowTextW os hwnd buff (len + 1) of
             (n, buff') \<Rightarrow> Inr (buffer_value buff')))"

definition get_all_windows_callback ::
  "os_state \<Rightarrow> hwnd \<Rightarrow> int \<Rightarrow> (hwnd \<rightharpoonup> string) \<Rightarrow> py_error + (bool \<times> (hwnd \<rightharpoonup> string))" where
  "get_all_windows_callback os hwnd l_param windows =
     (if IsWindowVisible os hwnd \<noteq> 0
      then (case get_title_from_hwnd os hwnd of
              Inl e \<Rightarrow> Inl e
            | Inr title \<Rightarrow>
                if title \<noteq> [] then Inr (True, windows(hwnd \<mapsto> title))
                else Inr (True, windows))
      else Inr (True, windows))"

definition get_all_windows :: "os_state \<Rightarrow> (hwnd \<rightharpoonup> string)" where
  "get_all_windows os =
     EnumWindows os (WINFUNCTYPE (get_all_windows_callback os)) 0 Map.empty"

definition get_all_user_windows_callback ::
  "os_state \<Rightarrow> hwnd \<Rightarrow> int \<Rightarrow> (hwnd \<rightharpoonup> string) \<Rightarrow> py_error + (bool \<times> (hwnd \<rightharpoonup> string))" where
  "get_all_user_windows_callback os hwnd l_param windows =
     (if \<not> (IsWindowVisible os hwnd \<noteq> 0) then Inr (True, windows)
      else let style = GetWindowLongPtrW os hwnd GWL_EXSTYLE in
        if style AND WS_EX_TOOLWINDOW \<noteq> 0 then Inr (True, windows)
        else if GetWindow os hwnd GW_OWNER \<noteq> 0 then Inr (True, windows)
        else (case get_title_from_hwnd os hwnd of
                Inl e \<Rightarrow> Inl e
              | Inr title \<Rightarrow>
                  if title \<noteq> [] then Inr (True, windows(hwnd \<mapsto> title))
                  else Inr (True, windows)))"

definition get_all_user_windows :: "os_state \<Rightarrow> (hwnd \<rightharpoonup> string)" where
  "get_all_user_windows os =
     EnumWindows os (WINFUNCTYPE (get_all_user_windows_callback os)) 0 Map.empty"

definition set_window_opacity :: "os_state \<Rightarrow> hwnd \<Rightarrow> 32 word \<Rightarrow> os_state" where
  "set_window_opacity os hwnd opacity =
     (case SetWindowLongPtrA os hwnd GWL_EXSTYLE
             (GetWindowLongPtrA os hwnd GWL_EXSTYLE OR WS_EX_LAYERED) of
        (prev, os1) \<Rightarrow>
          (case SetLayeredWindowAttributes os1 hwnd 0 opacity LWA_ALPHA of
             (ok, os2) \<Rightarrow> os2))"

definition get_process_name_from_hwnd :: "os_state \<Rightarrow> hwnd \<Rightarrow> (py_error + string) \<times> os_state" where
  "get_process_name_from_hwnd os hwnd =
     (let pid = GetWindowThreadProcessId os hwnd 0 in
      case OpenProcess os PROCESS_QUERY_LIMITED_INFORMATION False pid of
        (process_handle, os1) \<Rightarrow>
          if process_handle = 0 then (Inr [], os1)
          else
            (case create_unicode_buffer 260 of
               Inl e \<Rightarrow> (Inl e, os1)
             | Inr buffer \<Rightarrow>
                 (case QueryFullProcessImageNameW os1 process_handle 0 buffer 260 of
                    ((ok, buffer', size_out), os2) \<Rightarrow>
                      (case (if ok then index_last (str_split (buffer_value buffer') backslash)
                             else Inr []) of
                         Inl e \<Rightarrow> (Inl e, os2)
                       | Inr process_name \<Rightarrow>
                           (case CloseHandle os2 process_handle of
                              (closed, os3) \<Rightarrow> (Inr process_name, os3))))))"

text \<open>The component of a path after its last backslash: the whole path when it has none.\<close>

definition after_last_backslash :: "string \<Rightarrow> string" where
  "after_last_backslash path = rev (takeWhile (\<lambda>c. c \<noteq> backslash) (rev path))"


section \<open>Notions read off the registry\<close>

text \<open>The text a title lookup yields for a handle: what precedes the first terminator of
  the window's title, nothing for no window.\<close>

definition shown_text :: "os_state \<Rightarrow> hwnd \<Rightarrow> string" where
  "shown_text os h =
     (case window os h of
        None \<Rightarrow> []
      | Some w \<Rightarrow> takeWhile (\<lambda>c. c \<noteq> NUL) (window_title w))"

text \<open>Whether \<open>OpenProcess\<close> grants a handle on a process.\<close>

definition can_open :: "os_state \<Rightarrow> pid \<Rightarrow> bool" where
  "can_open os p =
     (p \<noteq> 0 \<and> (case process os p of None \<Rightarrow> False | Some pr \<Rightarrow> query_access pr))"

text \<open>The path the image-name query writes into a buffer of 260 cells, if it succeeds.\<close>

definition name_query :: "os_state \<Rightarrow> pid \<Rightarrow> string option" where
  "name_query os p =
     (case process os p of
        None \<Rightarrow> None
      | Some pr \<Rightarrow>
          (case image_path pr of
             None \<Rightarrow> None
           | Some path \<Rightarrow> if length path < 260 then Some path else None))"

text \<open>The counters of a fake operating-system layer: handles acquired and handles
  released in a log of kernel32 calls.\<close>

fun acquired :: "kernel_call list \<Rightarrow> nat" where
  "acquired [] = 0"
| "acquired (Opened h # cs) = Suc (acquired cs)"
| "acquired (c # cs) = acquired cs"

fun released :: "kernel_call list \<Rightarrow> nat" where
  "released [] = 0"
| "released (Closed h ok # cs) = (if ok then Suc (released cs) else released cs)"
| "released (c # cs) = released cs"

fun release_attempts :: "kernel_call list \<Rightarrow> nat" where
  "release_attempts [] = 0"
| "release_attempts (Closed h ok # cs) = Suc (release_attempts cs)"
| "release_attempts (c # cs) = release_attempts cs"

section \<open>Example registries\<close>

definition window_A :: window_rec where
  "window_A = \<lparr>visible = True, exstyle = 0x100, owner = 0, window_title = ''Notepad'',
                alpha = None, owner_pid = 1000\<rparr>"

definition window_B :: window_rec where
  "window_B = \<lparr>visible = True, exstyle = 0x80, owner = 0, window_title = [],
                alpha = None, owner_pid = 2000\<rparr>"

definition window_C :: window_rec where
  "window_C = \<lparr>visible = True, exstyle = 0, owner = 0x10, window_title = ''Dialog'',
                alpha = None, owner_pid = 3000\<rparr>"

definition notepad_path :: string where
  "notepad_path = ''C:'' @ [backslash] @ ''Windows'' @ [backslash] @ ''notepad.exe''"

definition long_path :: string where
  "long_path = ''C:'' @ [backslash] @ replicate 300 (CHR ''a'') @ [backslash] @ ''b.exe''"

definition process_table :: "pid \<rightharpoonup> process_rec" where
  "process_table =
     [1000 \<mapsto> \<lparr>query_access = True, image_path = Some notepad_path\<rparr>,
      2000 \<mapsto> \<lparr>query_access = False, image_path = Some notepad_path\<rparr>,
      3000 \<mapsto> \<lparr>query_access = True, image_path = Some long_path\<rparr>]"

definition registry_AB :: os_state where
  "registry_AB =
     \<lparr>zorder = [0x10, 0x20],
      window = [0x10 \<mapsto> window_A, 0x20 \<mapsto> window_B],
      process = process_table, open_handles = [], calls = []\<rparr>"

definition registry_ABC :: os_state where
  "registry_ABC =
     \<lparr>zorder = [0x10, 0x20, 0x30],
      window = [0x10 \<mapsto> window_A, 0x20 \<mapsto> window_B, 0x30 \<mapsto> window_C],
      process = process_table, open_handles = [], calls = []\<rparr>"

text \<open>A window whose process has an image path of exactly 259 characters.\<close>

definition edge_path :: string where
  "edge_path = ''C:'' @ [backslash] @ replicate 256 (CHR ''a'')"

definition window_D :: window_rec where
  "window_D = \<lparr>visible = True, exstyle = 0, owner = 0, window_title = ''Edge'',
                alpha = None, owner_pid = 4000\<rparr>"

definition registry_D :: os_state where
  "registry_D =
     \<lparr>zorder = [0x40],
      window = [0x40 \<mapsto> window_D],
      process = [4000 \<mapsto> \<lparr>query_access = True, image_path = Some edge_path\<rparr>],
      open_handles = [], calls = []\<rparr>"

section \<open>Title lookup\<close>

lemma takeWhile_append_NUL:
  "takeWhile (\<lambda>c. c \<noteq> NUL) (xs @ NUL # ys) = takeWhile (\<lambda>c. c \<noteq> NUL) xs"
  by (induction xs) simp_all

lemma takeWhile_no_NUL: "NUL \<notin> set xs \<Longrightarrow> takeWhile (\<lambda>c. c \<noteq> NUL) xs = xs"
  by (induction xs) auto

lemma get_title_from_hwnd_eq: "get_title_from_hwnd os h = Inr (shown_text os h)"
  by (simp add: get_title_from_hwnd_def GetWindowTextLengthW_def GetWindowTextW_def
      create_unicode_buffer_def buffer_value_def Let_def takeWhile_append_NUL shown_text_def
      split: option.splits)

text \<open>
  Claim C5. For a handle that refers to no window, and for a window whose title is empty,
  \<open>get_title_from_hwnd\<close> returns the empty text and raises nothing. For every handle it
  asks for the length of the title, creates a buffer of that many cells and one more,
  has the title written into it with that count and returns the buffer's value, without
  raising; so a title that holds no terminator is returned whole.
\<close>

theorem get_title_from_hwnd_stale_or_untitled:
  "(window os hwnd = None \<or> (\<exists>w. window os hwnd = Some w \<and> window_title w = [])
      \<longrightarrow> get_title_from_hwnd os hwnd = Inr [])
   \<and> (\<exists>buff. create_unicode_buffer (GetWindowTextLengthW os hwnd + 1) = Inr buff
         \<and> length buff = nat (GetWindowTextLengthW os hwnd) + 1
         \<and> get_title_from_hwnd os hwnd =
             Inr (buffer_value
               (snd (GetWindowTextW os hwnd buff (GetWindowTextLengthW os hwnd + 1)))))
   \<and> (\<forall>w. window os hwnd = Some w \<and> NUL \<notin> set (window_title w)
         \<longrightarrow> get_title_from_hwnd os hwnd = Inr (window_title w))"
proof (intro conjI)
  show "window os hwnd = None \<or> (\<exists>w. window os hwnd = Some w \<and> window_title w = [])
      \<longrightarrow> get_title_from_hwnd os hwnd = Inr []"
    by (auto simp: get_title_from_hwnd_eq shown_text_def)
next
  have len: "0 \<le> GetWindowTextLengthW os hwnd"
    by (simp add: GetWindowTextLengthW_def split: option.split)
  let ?buff = "replicate (nat (GetWindowTextLengthW os hwnd + 1)) NUL"
  from len have "create_unicode_buffer (GetWindowTextLengthW os hwnd + 1) = Inr ?buff"
    by (simp add: create_unicode_buffer_def)
  moreover from len have "length ?buff = nat (GetWindowTextLengthW os hwnd) + 1"
    by (simp add: nat_add_distrib)
  moreover from len have "get_title_from_hwnd os hwnd =
      Inr (buffer_value
        (snd (GetWindowTextW os hwnd ?buff (GetWindowTextLengthW os hwnd + 1))))"
    by (simp add: get_title_from_hwnd_def create_unicode_buffer_def Let_def
        split: prod.split)
  ultimately show "\<exists>buff. create_unicode_buffer (GetWindowTextLengthW os hwnd + 1) = Inr buff
      \<and> length buff = nat (GetWindowTextLengthW os hwnd) + 1
      \<and> get_title_from_hwnd os hwnd =
          Inr (buffer_value
            (snd (GetWindowTextW os hwnd buff (GetWindowTextLengthW os hwnd + 1))))"
    by blast
next
  show "\<forall>w. window os hwnd = Some w \<and> NUL \<notin> set (window_title w)
      \<longrightarrow> get_title_from_hwnd os hwnd = Inr (window_title w)"
    by (simp add: get_title_from_hwnd_eq shown_text_def takeWhile_no_NUL)
qed

theorem get_title_from_hwnd_stale_or_untitled_witness:
  "get_title_from_hwnd registry_AB 0x99 = Inr []
   \<and> get_title_from_hwnd registry_AB 0x20 = Inr []
   \<and> get_title_from_hwnd registry_AB 0x10 = Inr ''Notepad''
   \<and> GetWindowTextLengthW registry_AB 0x10 = 7
   \<and> create_unicode_buffer (GetWindowTextLengthW registry_AB 0x10 + 1) = Inr (replicate 8 NUL)
   \<and> snd (GetWindowTextW registry_AB 0x10 (replicate 8 NUL) 8) = ''Notepad'' @ [NUL]"
proof -
  have stale: "window registry_AB 0x99 = None"
    by (simp add: registry_AB_def)
  have untitled: "\<exists>w. window registry_AB 0x20 = Some w \<and> window_title w = []"
    by (simp add: registry_AB_def window_B_def)
  have titled: "window registry_AB 0x10 = Some window_A \<and> NUL \<notin> set (window_title window_A)"
    by (simp add: registry_AB_def window_A_def NUL_def)
  have len: "GetWindowTextLengthW registry_AB 0x10 = 7"
    by (simp add: GetWindowTextLengthW_def registry_AB_def window_A_def)
  have buff: "create_unicode_buffer (7 + 1) = Inr (replicate 8 NUL)"
    by (simp add: create_unicode_buffer_def)
  have fill: "snd (GetWindowTextW registry_AB 0x10 (replicate 8 NUL) 8) = ''Notepad'' @ [NUL]"
    by (simp add: GetWindowTextW_def registry_AB_def window_A_def)
  from get_title_from_hwnd_stale_or_untitled [of registry_AB "0x99"] stale
  have r1: "get_title_from_hwnd registry_AB 0x99 = Inr []"
    by blast
  from get_title_from_hwnd_stale_or_untitled [of registry_AB "0x20"] untitled
  have r2: "get_title_from_hwnd registry_AB 0x20 = Inr []"
    by blast
  from get_title_from_hwnd_stale_or_untitled [of registry_AB "0x10"] titled
  have "get_title_from_hwnd registry_AB 0x10 = Inr (window_title window_A)"
    by blast
  then have r3: "get_title_from_hwnd registry_AB 0x10 = Inr ''Notepad''"
    by (simp add: window_A_def)
  from r1 r2 r3 len buff fill show ?thesis
    by simp
qed

section \<open>Enumeration\<close>

lemma tool_bit:
  "(sint (w :: 32 word) AND WS_EX_TOOLWINDOW = 0) = (w AND word_of_int WS_EX_TOOLWINDOW = 0)"
proof -
  have a: "(sint w AND 128 = 0) = (\<not> bit (sint w) 7)"
    using and_exp_eq_0_iff_not_bit [of "sint w" 7] by simp
  have b: "(w AND 128 = 0) = (\<not> bit w 7)"
    using and_exp_eq_0_iff_not_bit [of w 7] by simp
  have c: "bit (sint w) 7 = bit w 7"
    by (simp add: bit_sint_iff)
  from a b c show ?thesis by (simp add: WS_EX_TOOLWINDOW_def)
qed

text \<open>A walk whose callback always answers true, and stores a text for the handles that
  pass a test, yields the accumulator extended by the passing handles of the list.\<close>

lemma EnumWindows_walk_collect:
  assumes "\<And>h s. cb h s = (True, if P h then s(h \<mapsto> T h) else s)"
  shows "EnumWindows_walk cb hs s = (\<lambda>k. if k \<in> set hs \<and> P k then Some (T k) else s k)"
proof (induction hs arbitrary: s)
  case Nil
  show ?case by simp
next
  case (Cons h hs)
  have step: "EnumWindows_walk cb (h # hs) s =
      EnumWindows_walk cb hs (if P h then s(h \<mapsto> T h) else s)"
    by (simp only: EnumWindows_walk.simps assms prod.case if_True)
  show ?case
    unfolding step Cons.IH by (auto simp: fun_eq_iff)
qed

lemma all_windows_callback_eq:
  "WINFUNCTYPE (get_all_windows_callback os) h l s =
     (True, if (case window os h of None \<Rightarrow> False | Some w \<Rightarrow> visible w)
               \<and> shown_text os h \<noteq> []
            then s(h \<mapsto> shown_text os h) else s)"
  by (simp add: WINFUNCTYPE_def get_all_windows_callback_def get_title_from_hwnd_eq
      IsWindowVisible_def split: option.splits)

lemma user_windows_callback_eq:
  "WINFUNCTYPE (get_all_user_windows_callback os) h l s =
     (True, if (case window os h of
                  None \<Rightarrow> False
                | Some w \<Rightarrow> visible w \<and> exstyle w AND word_of_int WS_EX_TOOLWINDOW = 0
                           \<and> owner w = 0)
               \<and> shown_text os h \<noteq> []
            then s(h \<mapsto> shown_text os h) else s)"
  by (simp add: WINFUNCTYPE_def get_all_user_windows_callback_def get_title_from_hwnd_eq
      IsWindowVisible_def GetWindowLongPtrW_def GetWindow_def tool_bit Let_def
      split: option.splits)

lemma get_all_windows_eq:
  "get_all_windows os =
     (\<lambda>k. if k \<in> set (zorder os)
              \<and> (case window os k of None \<Rightarrow> False | Some w \<Rightarrow> visible w)
              \<and> shown_text os k \<noteq> []
           then Some (shown_text os k) else None)"
  unfolding get_all_windows_def EnumWindows_def
  by (subst EnumWindows_walk_collect
        [where P = "\<lambda>h. (case window os h of None \<Rightarrow> False | Some w \<Rightarrow> visible w)
                        \<and> shown_text os h \<noteq> []"
           and T = "shown_text os"])
     (simp_all add: all_windows_callback_eq)

lemma get_all_user_windows_eq:
  "get_all_user_windows os =
     (\<lambda>k. if k \<in> set (zorder os)
              \<and> (case window os k of
                    None \<Rightarrow> False
                  | Some w \<Rightarrow> visible w \<and> exstyle w AND word_of_int WS_EX_TOOLWINDOW = 0
                             \<and> owner w = 0)
              \<and> shown_text os k \<noteq> []
           then Some (shown_text os k) else None)"
  unfolding get_all_user_windows_def EnumWindows_def
  by (subst EnumWindows_walk_collect
        [where P = "\<lambda>h. (case window os h of
                            None \<Rightarrow> False
                          | Some w \<Rightarrow> visible w
                              \<and> exstyle w AND word_of_int WS_EX_TOOLWINDOW = 0 \<and> owner w = 0)
                        \<and> shown_text os h \<noteq> []"
           and T = "shown_text os"])
     (simp_all add: user_windows_callback_eq)

text \<open>
  Claim C1. A window of the registry whose title holds no terminator is in the result
  of \<open>get_all_user_windows\<close>, under its handle and with its title, exactly when it is
  visible, its extended style has no \<open>WS_EX_TOOLWINDOW\<close> bit, it has no owner and its
  title is not empty. Whatever the window, the callback answers true, so the walk goes on
  to the next window.
\<close>

theorem get_all_user_windows_four_conditions:
  assumes "h \<in> set (zorder os)" and "window os h = Some w"
    and "NUL \<notin> set (window_title w)"
  shows "get_all_user_windows os h =
           (if visible w \<and> exstyle w AND word_of_int WS_EX_TOOLWINDOW = 0 \<and> owner w = 0
               \<and> window_title w \<noteq> []
            then Some (window_title w) else None)
         \<and> fst (WINFUNCTYPE (get_all_user_windows_callback os) h 0 s)"
  using assms
  by (simp add: get_all_user_windows_eq shown_text_def takeWhile_no_NUL
      user_windows_callback_eq)

theorem get_all_user_windows_four_conditions_witness:
  "get_all_user_windows registry_ABC 0x10 = Some ''Notepad''
   \<and> get_all_user_windows registry_ABC 0x20 = None
   \<and> get_all_user_windows registry_ABC 0x30 = None"
proof -
  have a: "0x10 \<in> set (zorder registry_ABC) \<and> window registry_ABC 0x10 = Some window_A
      \<and> NUL \<notin> set (window_title window_A)"
    by (simp add: registry_ABC_def window_A_def NUL_def)
  have b: "0x20 \<in> set (zorder registry_ABC) \<and> window registry_ABC 0x20 = Some window_B
      \<and> NUL \<notin> set (window_title window_B)"
    by (simp add: registry_ABC_def window_B_def NUL_def)
  have c: "0x30 \<in> set (zorder registry_ABC) \<and> window registry_ABC 0x30 = Some window_C
      \<and> NUL \<notin> set (window_title window_C)"
    by (simp add: registry_ABC_def window_C_def NUL_def)
  from a b c show ?thesis
    using get_all_user_windows_four_conditions [of "0x10" registry_ABC window_A Map.empty]
      get_all_user_windows_four_conditions [of "0x20" registry_ABC window_B Map.empty]
      get_all_user_windows_four_conditions [of "0x30" registry_ABC window_C Map.empty]
    by (simp add: window_A_def window_B_def window_C_def WS_EX_TOOLWINDOW_def)
qed

text \<open>
  Claim C2. In a registry whose titles hold no terminator, a window is in the result of
  \<open>get_all_windows\<close>, under its handle and with its title, exactly when it is visible and
  its title is not empty; the keys of the result are exactly the handles of the windows
  that pass, one entry for each.
\<close>

theorem get_all_windows_visible_and_titled:
  assumes "\<forall>h\<in>set (zorder os). \<forall>w. window os h = Some w \<longrightarrow> NUL \<notin> set (window_title w)"
  shows "(\<forall>h\<in>set (zorder os). \<forall>w. window os h = Some w \<longrightarrow>
            get_all_windows os h =
              (if visible w \<and> window_title w \<noteq> [] then Some (window_title w) else None))
         \<and> dom (get_all_windows os) =
             {h \<in> set (zorder os).
                \<exists>w. window os h = Some w \<and> visible w \<and> window_title w \<noteq> []}"
proof
  show "\<forall>h\<in>set (zorder os). \<forall>w. window os h = Some w \<longrightarrow>
      get_all_windows os h =
        (if visible w \<and> window_title w \<noteq> [] then Some (window_title w) else None)"
    using assms by (simp add: get_all_windows_eq shown_text_def takeWhile_no_NUL)
next
  show "dom (get_all_windows os) =
      {h \<in> set (zorder os). \<exists>w. window os h = Some w \<and> visible w \<and> window_title w \<noteq> []}"
    using assms
    by (auto simp: get_all_windows_eq shown_text_def takeWhile_no_NUL dom_def
        split: option.splits if_splits)
qed

theorem get_all_windows_visible_and_titled_witness:
  "get_all_windows registry_ABC 0x10 = Some ''Notepad''
   \<and> get_all_windows registry_ABC 0x20 = None
   \<and> get_all_windows registry_ABC 0x30 = Some ''Dialog''
   \<and> dom (get_all_windows registry_ABC) = {0x10, 0x30}"
proof -
  have titles: "\<forall>h\<in>set (zorder registry_ABC). \<forall>w. window registry_ABC h = Some w \<longrightarrow>
      NUL \<notin> set (window_title w)"
    by (simp add: registry_ABC_def window_A_def window_B_def window_C_def NUL_def)
  have passing: "{h \<in> set (zorder registry_ABC).
      \<exists>w. window registry_ABC h = Some w \<and> visible w \<and> window_title w \<noteq> []} = {0x10, 0x30}"
    by (auto simp: registry_ABC_def window_A_def window_B_def window_C_def)
  from get_all_windows_visible_and_titled [OF titles] passing show ?thesis
    by (simp add: registry_ABC_def window_A_def window_B_def window_C_def)
qed

text \<open>
  Claim C3, as amended. The result of \<open>get_all_user_windows\<close> is a submap of the result
  of \<open>get_all_windows\<close> over the same registry: every entry of the first is an entry of
  the second. The two may be equal.
\<close>

theorem get_all_user_windows_submap: "get_all_user_windows os \<subseteq>\<^sub>m get_all_windows os"
  by (auto simp: map_le_def get_all_windows_eq get_all_user_windows_eq
      split: if_splits option.splits)

theorem get_all_user_windows_submap_witness:
  "get_all_user_windows registry_ABC \<subseteq>\<^sub>m get_all_windows registry_ABC
   \<and> get_all_user_windows registry_ABC 0x30 = None
   \<and> get_all_windows registry_ABC 0x30 = Some ''Dialog''"
  using get_all_user_windows_submap [of registry_ABC]
  by (simp add: get_all_windows_eq get_all_user_windows_eq shown_text_def
      registry_ABC_def window_C_def NUL_def)

text \<open>
  The claim as stated, with a strict inclusion, fails on the registry of window A
  (visible, titled, no owner, no tool-window bit) and window B (no title, tool-window
  bit): both enumerations give the same mapping.
\<close>

theorem get_all_user_windows_not_strict:
  "\<not> (get_all_user_windows registry_AB \<subseteq>\<^sub>m get_all_windows registry_AB
      \<and> get_all_user_windows registry_AB \<noteq> get_all_windows registry_AB)"
proof -
  have "get_all_user_windows registry_AB = get_all_windows registry_AB"
    by (auto simp: fun_eq_iff get_all_windows_eq get_all_user_windows_eq shown_text_def
        registry_AB_def window_A_def window_B_def NUL_def WS_EX_TOOLWINDOW_def)
  then show ?thesis by simp
qed

text \<open>
  Claim C4. A window whose title is empty is in neither result, whatever its visibility,
  its style bits and its owner.
\<close>

theorem untitled_window_absent:
  assumes "window os h = Some w" and "window_title w = []"
  shows "get_all_windows os h = None \<and> get_all_user_windows os h = None"
  using assms by (simp add: get_all_windows_eq get_all_user_windows_eq shown_text_def)

theorem untitled_window_absent_witness:
  "get_all_windows registry_ABC 0x20 = None \<and> get_all_user_windows registry_ABC 0x20 = None"
proof -
  have "window registry_ABC 0x20 = Some window_B \<and> window_title window_B = []"
    by (simp add: registry_ABC_def window_B_def)
  then show ?thesis
    using untitled_window_absent [of registry_ABC "0x20" window_B] by simp
qed


section \<open>Process name lookup\<close>

lemma fold_max_ge: "(b :: int) \<le> fold max xs b"
proof (induction xs arbitrary: b)
  case Nil
  show ?case by simp
next
  case (Cons x xs)
  have "b \<le> max x b" by simp
  also have "\<dots> \<le> fold max xs (max x b)" by (rule Cons.IH)
  finally show ?case by simp
qed

lemma fold_max_upper: "x \<in> set xs \<Longrightarrow> (x :: int) \<le> fold max xs b"
proof (induction xs arbitrary: b)
  case Nil
  then show ?case by simp
next
  case (Cons y ys)
  show ?case
  proof (cases "x = y")
    case True
    have "x \<le> max y b" using True by simp
    also have "\<dots> \<le> fold max ys (max y b)" by (rule fold_max_ge)
    finally show ?thesis by simp
  next
    case False
    with Cons.prems have "x \<in> set ys" by simp
    then show ?thesis by (simp add: Cons.IH)
  qed
qed

lemma new_handle_pos: "0 < new_handle hs"
  using fold_max_ge [of 0 "map fst hs"] by (simp add: new_handle_def)

lemma new_handle_fresh: "e \<in> set hs \<Longrightarrow> fst e \<noteq> new_handle hs"
  using fold_max_upper [of "fst e" "map fst hs" 0] by (auto simp: new_handle_def)

lemma filter_new_handle: "filter (\<lambda>e. fst e \<noteq> new_handle hs) hs = hs"
  by (simp add: new_handle_fresh filter_id_conv)

lemma str_split_nonempty: "str_split s sep \<noteq> []"
  by (cases s) (simp_all split: list.split)

lemma str_split_no_sep: "sep \<notin> set s \<Longrightarrow> str_split s sep = [s]"
  by (induction s) auto

lemma str_split_sep: "sep \<in> set s \<Longrightarrow> tl (str_split s sep) \<noteq> []"
  by (induction s) (auto simp: str_split_nonempty split: list.split)

lemma last_str_split:
  "last (str_split s sep) = rev (takeWhile (\<lambda>c. c \<noteq> sep) (rev s))"
proof (induction s)
  case Nil
  show ?case by simp
next
  case (Cons c cs)
  show ?case
  proof (cases "c = sep")
    case True
    then show ?thesis
      by (simp add: str_split_nonempty Cons.IH takeWhile_append)
  next
    case False
    show ?thesis
    proof (cases "sep \<in> set cs")
      case True
      obtain p ps where ps: "str_split cs sep = p # ps"
        using str_split_nonempty [of cs sep] by (cases "str_split cs sep") auto
      with str_split_sep [OF True] have "ps \<noteq> []" by simp
      with ps False Cons.IH True show ?thesis
        by (auto simp: takeWhile_append)
    next
      case no: False
      with False show ?thesis
        by (simp add: str_split_no_sep takeWhile_append)
    qed
  qed
qed

lemma index_last_str_split:
  "index_last (str_split s backslash) = Inr (after_last_backslash s)"
  by (simp add: index_last_def str_split_nonempty last_str_split after_last_backslash_def)

lemma after_last_backslash_decomposition:
  "\<exists>dir. path = dir @ after_last_backslash path
      \<and> (dir = [] \<or> last dir = backslash)
      \<and> backslash \<notin> set (after_last_backslash path)"
proof -
  let ?P = "\<lambda>c. c \<noteq> backslash"
  let ?r = "rev path"
  have split: "?r = takeWhile ?P ?r @ dropWhile ?P ?r" by simp
  have path: "path = rev (dropWhile ?P ?r) @ after_last_backslash path"
    unfolding after_last_backslash_def
    by (metis rev_append rev_rev_ident takeWhile_dropWhile_id)
  have edge: "rev (dropWhile ?P ?r) = [] \<or> last (rev (dropWhile ?P ?r)) = backslash"
  proof (cases "dropWhile ?P ?r")
    case Nil
    then show ?thesis by simp
  next
    case (Cons d ds)
    then have "\<not> ?P d" using hd_dropWhile [of ?P ?r] by (metis list.sel(1) list.distinct(1))
    with Cons show ?thesis by simp
  qed
  have free: "backslash \<notin> set (after_last_backslash path)"
    unfolding after_last_backslash_def using set_takeWhileD [of backslash ?P ?r] by auto
  from path edge free show ?thesis by blast
qed

lemma length_after_last_backslash: "length (after_last_backslash s) \<le> length s"
  unfolding after_last_backslash_def
  using length_takeWhile_le [of "\<lambda>c. c \<noteq> backslash" "rev s"] by simp

lemma OpenProcess_eq:
  "OpenProcess os a i p =
     (if can_open os p
      then (new_handle (open_handles os),
            os\<lparr>open_handles := (new_handle (open_handles os), p) # open_handles os,
               calls := calls os @ [Opened (new_handle (open_handles os))]\<rparr>)
      else (0, os\<lparr>calls := calls os @ [OpenFailed]\<rparr>))"
  by (simp add: OpenProcess_def can_open_def Let_def)

lemma get_process_name_failed:
  assumes "\<not> can_open os (GetWindowThreadProcessId os hwnd 0)"
  shows "get_process_name_from_hwnd os hwnd = (Inr [], os\<lparr>calls := calls os @ [OpenFailed]\<rparr>)"
  using assms by (simp add: get_process_name_from_hwnd_def OpenProcess_eq)

lemma get_process_name_opened:
  assumes "can_open os (GetWindowThreadProcessId os hwnd 0)"
  shows "get_process_name_from_hwnd os hwnd =
     (let h = new_handle (open_handles os);
          q = name_query os (GetWindowThreadProcessId os hwnd 0)
      in (Inr (case q of
                 None \<Rightarrow> []
               | Some path \<Rightarrow> after_last_backslash (takeWhile (\<lambda>c. c \<noteq> NUL) path)),
          os\<lparr>calls := calls os @ [Opened h, Queried h (q \<noteq> None), Closed h True]\<rparr>))"
  using assms new_handle_pos [of "open_handles os"]
  by (simp add: get_process_name_from_hwnd_def OpenProcess_eq create_unicode_buffer_def
      QueryFullProcessImageNameW_def CloseHandle_def name_query_def Let_def
      buffer_value_def takeWhile_append_NUL index_last_str_split filter_new_handle
      split: option.splits)

lemma query_after_open:
  assumes "can_open os p"
  shows "fst (fst (QueryFullProcessImageNameW
            (snd (OpenProcess os a i p)) (fst (OpenProcess os a i p)) 0
            (replicate 260 NUL) 260)) = (name_query os p \<noteq> None)"
  using assms
  by (simp add: OpenProcess_eq QueryFullProcessImageNameW_def name_query_def
      split: option.splits)

lemma acquired_append: "acquired (xs @ ys) = acquired xs + acquired ys"
  by (induction xs rule: acquired.induct) simp_all

lemma released_append: "released (xs @ ys) = released xs + released ys"
  by (induction xs rule: released.induct) simp_all

lemma release_attempts_append:
  "release_attempts (xs @ ys) = release_attempts xs + release_attempts ys"
  by (induction xs rule: release_attempts.induct) simp_all

text \<open>
  Claim C6. When the handle refers to no window, when \<open>OpenProcess\<close> gives no process
  handle, or when the image-name query on the opened handle fails,
  \<open>get_process_name_from_hwnd\<close> returns the empty text and raises nothing.
\<close>

theorem get_process_name_from_hwnd_empty_on_failure:
  assumes "window os hwnd = None
     \<or> fst (OpenProcess os PROCESS_QUERY_LIMITED_INFORMATION False
              (GetWindowThreadProcessId os hwnd 0)) = 0
     \<or> \<not> fst (fst (QueryFullProcessImageNameW
              (snd (OpenProcess os PROCESS_QUERY_LIMITED_INFORMATION False
                      (GetWindowThreadProcessId os hwnd 0)))
              (fst (OpenProcess os PROCESS_QUERY_LIMITED_INFORMATION False
                      (GetWindowThreadProcessId os hwnd 0)))
              0 (replicate 260 NUL) 260))"
  shows "fst (get_process_name_from_hwnd os hwnd) = Inr []"
proof (cases "can_open os (GetWindowThreadProcessId os hwnd 0)")
  case False
  then show ?thesis by (simp add: get_process_name_failed)
next
  case True
  then have "window os hwnd \<noteq> None"
    by (auto simp: can_open_def GetWindowThreadProcessId_def split: option.splits)
  moreover from True have "fst (OpenProcess os PROCESS_QUERY_LIMITED_INFORMATION False
      (GetWindowThreadProcessId os hwnd 0)) \<noteq> 0"
    using new_handle_pos [of "open_handles os"] by (simp add: OpenProcess_eq)
  ultimately have "name_query os (GetWindowThreadProcessId os hwnd 0) = None"
    using assms query_after_open [OF True, of PROCESS_QUERY_LIMITED_INFORMATION False]
    by auto
  with True show ?thesis
    by (simp add: get_process_name_opened Let_def)
qed

theorem get_process_name_from_hwnd_empty_on_failure_witness:
  "fst (get_process_name_from_hwnd registry_ABC 0x99) = Inr []
   \<and> fst (get_process_name_from_hwnd registry_ABC 0x20) = Inr []
   \<and> fst (get_process_name_from_hwnd registry_ABC 0x30) = Inr []"
proof -
  have stale: "window registry_ABC 0x99 = None"
    by (simp add: registry_ABC_def)
  have denied: "fst (OpenProcess registry_ABC PROCESS_QUERY_LIMITED_INFORMATION False
      (GetWindowThreadProcessId registry_ABC 0x20 0)) = 0"
    by (simp add: OpenProcess_def GetWindowThreadProcessId_def registry_ABC_def
        window_B_def process_table_def)
  have failed: "\<not> fst (fst (QueryFullProcessImageNameW
      (snd (OpenProcess registry_ABC PROCESS_QUERY_LIMITED_INFORMATION False
              (GetWindowThreadProcessId registry_ABC 0x30 0)))
      (fst (OpenProcess registry_ABC PROCESS_QUERY_LIMITED_INFORMATION False
              (GetWindowThreadProcessId registry_ABC 0x30 0)))
      0 (replicate 260 NUL) 260))"
    by (simp add: OpenProcess_def QueryFullProcessImageNameW_def GetWindowThreadProcessId_def
        registry_ABC_def window_C_def process_table_def long_path_def new_handle_def Let_def)
  from stale denied failed show ?thesis
    using get_process_name_from_hwnd_empty_on_failure [of registry_ABC "0x99"]
      get_process_name_from_hwnd_empty_on_failure [of registry_ABC "0x20"]
      get_process_name_from_hwnd_empty_on_failure [of registry_ABC "0x30"]
    by simp
qed

text \<open>
  Claim C7. In a call of \<open>get_process_name_from_hwnd\<close>, when \<open>OpenProcess\<close> gives a
  handle, the calls made are the opening, one query and one successful \<open>CloseHandle\<close> on
  that handle, whether the query succeeds or fails; when it gives none, \<open>CloseHandle\<close>
  is not called. The table of open handles is the same after the call as before, and the
  count of handles acquired and the count of handles released grow by the same number.
\<close>

theorem process_handle_released_exactly_once:
  "(let opened = OpenProcess os PROCESS_QUERY_LIMITED_INFORMATION False
                   (GetWindowThreadProcessId os hwnd 0);
        h = fst opened;
        n = (if h = 0 then 0 else 1);
        os' = snd (get_process_name_from_hwnd os hwnd)
    in calls os' = calls os @
         (if h = 0 then [OpenFailed]
          else [Opened h,
                Queried h (fst (fst (QueryFullProcessImageNameW (snd opened) h 0
                                       (replicate 260 NUL) 260))),
                Closed h True])
       \<and> open_handles os' = open_handles os
       \<and> acquired (calls os') = acquired (calls os) + n
       \<and> released (calls os') = released (calls os) + n
       \<and> release_attempts (calls os') = release_attempts (calls os) + n)"
proof (cases "can_open os (GetWindowThreadProcessId os hwnd 0)")
  case False
  then show ?thesis
    by (simp add: get_process_name_failed OpenProcess_eq Let_def acquired_append
        released_append release_attempts_append)
next
  case True
  let ?p = "GetWindowThreadProcessId os hwnd 0"
  let ?opened = "OpenProcess os PROCESS_QUERY_LIMITED_INFORMATION False ?p"
  from True have h: "fst ?opened = new_handle (open_handles os)"
    by (simp add: OpenProcess_eq)
  have q: "fst (fst (QueryFullProcessImageNameW (snd ?opened) (new_handle (open_handles os)) 0
      (replicate 260 NUL) 260)) = (name_query os ?p \<noteq> None)"
    using query_after_open [OF True, of PROCESS_QUERY_LIMITED_INFORMATION False]
    by (simp only: h)
  have pos: "new_handle (open_handles os) \<noteq> 0"
    using new_handle_pos [of "open_handles os"] by simp
  show ?thesis
    unfolding Let_def h q
    by (simp add: True pos get_process_name_opened Let_def acquired_append released_append
        release_attempts_append)
qed

theorem process_handle_released_exactly_once_witness:
  "calls (snd (get_process_name_from_hwnd registry_ABC 0x10)) =
     [Opened 4, Queried 4 True, Closed 4 True]
   \<and> calls (snd (get_process_name_from_hwnd registry_ABC 0x30)) =
     [Opened 4, Queried 4 False, Closed 4 True]
   \<and> calls (snd (get_process_name_from_hwnd registry_ABC 0x20)) = [OpenFailed]
   \<and> open_handles (snd (get_process_name_from_hwnd registry_ABC 0x10)) = []"
  using process_handle_released_exactly_once [of registry_ABC "0x10"]
    process_handle_released_exactly_once [of registry_ABC "0x30"]
    process_handle_released_exactly_once [of registry_ABC "0x20"]
  by (simp add: OpenProcess_def QueryFullProcessImageNameW_def GetWindowThreadProcessId_def
      registry_ABC_def window_A_def window_B_def window_C_def process_table_def
      long_path_def notepad_path_def new_handle_def Let_def)

text \<open>
  Claim C8. When the window exists, its process can be opened and the image-name query
  succeeds (the path, free of terminators, fits the buffer of 260 cells with its
  terminator), \<open>get_process_name_from_hwnd\<close> returns the component of the path after
  its last backslash: the path is some prefix, empty or ending in a backslash, followed
  by the result, and the result holds no backslash.
\<close>

theorem get_process_name_from_hwnd_file_name:
  assumes "window os hwnd = Some w" and "owner_pid w \<noteq> 0"
    and "process os (owner_pid w) = Some pr" and "query_access pr"
    and "image_path pr = Some path" and "length path < 260" and "NUL \<notin> set path"
  shows "fst (get_process_name_from_hwnd os hwnd) = Inr (after_last_backslash path)
         \<and> (\<exists>dir. path = dir @ after_last_backslash path
               \<and> (dir = [] \<or> last dir = backslash)
               \<and> backslash \<notin> set (after_last_backslash path))"
proof
  from assms have pid: "GetWindowThreadProcessId os hwnd 0 = owner_pid w"
    by (simp add: GetWindowThreadProcessId_def)
  from assms have "can_open os (owner_pid w)"
    by (simp add: can_open_def)
  moreover from assms have "name_query os (owner_pid w) = Some path"
    by (simp add: name_query_def)
  ultimately show "fst (get_process_name_from_hwnd os hwnd) = Inr (after_last_backslash path)"
    using assms(7) pid by (simp add: get_process_name_opened Let_def takeWhile_no_NUL)
next
  show "\<exists>dir. path = dir @ after_last_backslash path
      \<and> (dir = [] \<or> last dir = backslash)
      \<and> backslash \<notin> set (after_last_backslash path)"
    by (rule after_last_backslash_decomposition)
qed

theorem get_process_name_from_hwnd_file_name_witness:
  "fst (get_process_name_from_hwnd registry_ABC 0x10) = Inr ''notepad.exe''"
proof -
  let ?pr = "\<lparr>query_access = True, image_path = Some notepad_path\<rparr>"
  have a: "window registry_ABC 0x10 = Some window_A \<and> owner_pid window_A \<noteq> 0
      \<and> process registry_ABC (owner_pid window_A) = Some ?pr \<and> query_access ?pr
      \<and> image_path ?pr = Some notepad_path \<and> length notepad_path < 260
      \<and> NUL \<notin> set notepad_path"
    by (simp add: registry_ABC_def window_A_def process_table_def notepad_path_def
        NUL_def backslash_def)
  have b: "after_last_backslash notepad_path = ''notepad.exe''"
    by (simp add: after_last_backslash_def notepad_path_def backslash_def)
  from a b show ?thesis
    using get_process_name_from_hwnd_file_name
      [of registry_ABC "0x10" window_A ?pr notepad_path]
    by simp
qed

lemma takeWhile_until: "x \<notin> set xs \<Longrightarrow> takeWhile (\<lambda>c. c \<noteq> x) (xs @ x # ys) = xs"
  by (induction xs) auto

text \<open>
  Claim C10. The buffer for the image path has 260 cells, and the one query of a call is
  made on it: for a window whose process is opened, the query succeeds exactly when the
  path has at most 259 characters, and the log of the call records it so. For a path
  longer than 259 characters the query fails, nothing of the path reaches the result and
  \<open>get_process_name_from_hwnd\<close> returns the empty text; for a path of at most 259
  characters, free of terminators, it returns the component after the last backslash.
  Whatever the registry, the function returns a text, of fewer than 260 characters, and
  raises nothing.
\<close>

theorem get_process_name_from_hwnd_long_path:
  assumes "window os hwnd = Some w" and "process os (owner_pid w) = Some pr"
    and "image_path pr = Some path"
  shows "(let opened = OpenProcess os PROCESS_QUERY_LIMITED_INFORMATION False (owner_pid w);
              h = fst opened;
              res = get_process_name_from_hwnd os hwnd
          in create_unicode_buffer 260 = Inr (replicate 260 NUL)
             \<and> (259 < length path \<longrightarrow> fst res = Inr [])
             \<and> (h \<noteq> 0 \<longrightarrow>
                   fst (fst (QueryFullProcessImageNameW (snd opened) h 0
                               (replicate 260 NUL) 260)) = (length path \<le> 259)
                   \<and> calls (snd res) =
                       calls os @ [Opened h, Queried h (length path \<le> 259), Closed h True])
             \<and> (h \<noteq> 0 \<and> length path \<le> 259 \<and> NUL \<notin> set path \<longrightarrow>
                   fst res = Inr (after_last_backslash path))
             \<and> (\<exists>name. fst (get_process_name_from_hwnd os' hwnd') = Inr name
                   \<and> length name < 260))"
proof -
  let ?opened = "OpenProcess os PROCESS_QUERY_LIMITED_INFORMATION False (owner_pid w)"
  let ?h = "fst ?opened"
  let ?res = "get_process_name_from_hwnd os hwnd"
  from assms have pid: "GetWindowThreadProcessId os hwnd 0 = owner_pid w"
    by (simp add: GetWindowThreadProcessId_def)
  from assms have q: "(name_query os (owner_pid w) \<noteq> None) = (length path \<le> 259)"
    by (auto simp: name_query_def)
  have opened: "?h \<noteq> 0 \<Longrightarrow> can_open os (owner_pid w)"
    by (simp add: OpenProcess_eq split: if_splits)
  have c1: "create_unicode_buffer 260 = Inr (replicate 260 NUL)"
    by (simp add: create_unicode_buffer_def)
  have c2: "259 < length path \<longrightarrow> fst ?res = Inr []"
  proof
    assume "259 < length path"
    with q have none: "name_query os (owner_pid w) = None" by simp
    show "fst ?res = Inr []"
    proof (cases "can_open os (owner_pid w)")
      case True
      with pid none show ?thesis by (simp add: get_process_name_opened Let_def)
    next
      case False
      with pid show ?thesis by (simp add: get_process_name_failed)
    qed
  qed
  have c3: "?h \<noteq> 0 \<longrightarrow>
      fst (fst (QueryFullProcessImageNameW (snd ?opened) ?h 0 (replicate 260 NUL) 260))
        = (length path \<le> 259)
      \<and> calls (snd ?res) =
          calls os @ [Opened ?h, Queried ?h (length path \<le> 259), Closed ?h True]"
  proof
    assume "?h \<noteq> 0"
    then have co: "can_open os (owner_pid w)" by (rule opened)
    then have h: "?h = new_handle (open_handles os)"
      by (simp add: OpenProcess_eq)
    have "fst (fst (QueryFullProcessImageNameW (snd ?opened) ?h 0 (replicate 260 NUL) 260))
        = (length path \<le> 259)"
      using query_after_open [OF co, of PROCESS_QUERY_LIMITED_INFORMATION False] q by simp
    moreover have "calls (snd ?res) =
        calls os @ [Opened ?h, Queried ?h (length path \<le> 259), Closed ?h True]"
      using co pid q by (simp add: get_process_name_opened Let_def h)
    ultimately show "fst (fst (QueryFullProcessImageNameW (snd ?opened) ?h 0
          (replicate 260 NUL) 260)) = (length path \<le> 259)
        \<and> calls (snd ?res) =
            calls os @ [Opened ?h, Queried ?h (length path \<le> 259), Closed ?h True]"
      by simp
  qed
  have c4: "?h \<noteq> 0 \<and> length path \<le> 259 \<and> NUL \<notin> set path \<longrightarrow>
      fst ?res = Inr (after_last_backslash path)"
  proof
    assume a: "?h \<noteq> 0 \<and> length path \<le> 259 \<and> NUL \<notin> set path"
    then have co: "can_open os (owner_pid w)" by (simp add: opened)
    from a assms have "name_query os (owner_pid w) = Some path"
      by (simp add: name_query_def)
    with co pid a show "fst ?res = Inr (after_last_backslash path)"
      by (simp add: get_process_name_opened Let_def takeWhile_no_NUL)
  qed
  have c5: "\<exists>name. fst (get_process_name_from_hwnd os' hwnd') = Inr name \<and> length name < 260"
  proof (cases "can_open os' (GetWindowThreadProcessId os' hwnd' 0)")
    case False
    then show ?thesis by (simp add: get_process_name_failed)
  next
    case True
    show ?thesis
    proof (cases "name_query os' (GetWindowThreadProcessId os' hwnd' 0)")
      case None
      with True show ?thesis by (simp add: get_process_name_opened Let_def)
    next
      case (Some p)
      then have "length p < 260"
        by (auto simp: name_query_def split: option.splits if_splits)
      moreover have "length (after_last_backslash (takeWhile (\<lambda>c. c \<noteq> NUL) p))
          \<le> length (takeWhile (\<lambda>c. c \<noteq> NUL) p)"
        by (rule length_after_last_backslash)
      moreover have "length (takeWhile (\<lambda>c. c \<noteq> NUL) p) \<le> length p"
        by (rule length_takeWhile_le)
      ultimately show ?thesis
        using True Some by (simp add: get_process_name_opened Let_def)
    qed
  qed
  from c1 c2 c3 c4 c5 show ?thesis
    unfolding Let_def by blast
qed

theorem get_process_name_from_hwnd_long_path_witness:
  "length long_path = 309
   \<and> fst (get_process_name_from_hwnd registry_ABC 0x30) = Inr []
   \<and> calls (snd (get_process_name_from_hwnd registry_ABC 0x30)) =
       [Opened 4, Queried 4 False, Closed 4 True]
   \<and> length edge_path = 259
   \<and> fst (get_process_name_from_hwnd registry_D 0x40) = Inr (replicate 256 (CHR ''a''))
   \<and> calls (snd (get_process_name_from_hwnd registry_D 0x40)) =
       [Opened 4, Queried 4 True, Closed 4 True]"
proof -
  let ?pc = "\<lparr>query_access = True, image_path = Some long_path\<rparr>"
  let ?pd = "\<lparr>query_access = True, image_path = Some edge_path\<rparr>"
  have a: "window registry_ABC 0x30 = Some window_C
      \<and> process registry_ABC (owner_pid window_C) = Some ?pc
      \<and> image_path ?pc = Some long_path"
    by (simp add: registry_ABC_def window_C_def process_table_def)
  have b: "length long_path = 309"
    by (simp add: long_path_def)
  have c: "fst (OpenProcess registry_ABC PROCESS_QUERY_LIMITED_INFORMATION False
      (owner_pid window_C)) = 4"
    by (simp add: OpenProcess_def registry_ABC_def window_C_def process_table_def
        new_handle_def Let_def)
  have d: "window registry_D 0x40 = Some window_D
      \<and> process registry_D (owner_pid window_D) = Some ?pd
      \<and> image_path ?pd = Some edge_path"
    by (simp add: registry_D_def window_D_def)
  have e: "length edge_path = 259 \<and> NUL \<notin> set edge_path"
    by (simp add: edge_path_def NUL_def backslash_def)
  have f: "fst (OpenProcess registry_D PROCESS_QUERY_LIMITED_INFORMATION False
      (owner_pid window_D)) = 4"
    by (simp add: OpenProcess_def registry_D_def window_D_def new_handle_def Let_def)
  have g: "after_last_backslash edge_path = replicate 256 (CHR ''a'')"
    by (simp add: after_last_backslash_def edge_path_def backslash_def takeWhile_until)
  have calls: "calls registry_ABC = [] \<and> calls registry_D = []"
    by (simp add: registry_ABC_def registry_D_def)
  from a b c d e f g calls show ?thesis
    using get_process_name_from_hwnd_long_path
        [of registry_ABC "0x30" window_C ?pc long_path registry_ABC "0x30"]
      get_process_name_from_hwnd_long_path
        [of registry_D "0x40" window_D ?pd edge_path registry_D "0x40"]
    by (simp add: Let_def)
qed

section \<open>Opacity\<close>

lemma layered_marshalled:
  "(word_of_int (sint (w :: 32 word) OR WS_EX_LAYERED) :: 32 word) = w OR word_of_int WS_EX_LAYERED"
  by (simp add: WS_EX_LAYERED_def of_int_or_eq)

lemma bit_layered: "bit (word_of_int WS_EX_LAYERED :: 32 word) n = (n = 19)"
proof -
  have "(word_of_int WS_EX_LAYERED :: 32 word) = 2 ^ 19"
    by (simp add: WS_EX_LAYERED_def)
  then show ?thesis
    by (simp only: bit_exp_iff) auto
qed

lemma layered_after_or:
  "sint ((w :: 32 word) OR word_of_int WS_EX_LAYERED) AND WS_EX_LAYERED \<noteq> 0"
proof -
  let ?v = "w OR word_of_int WS_EX_LAYERED"
  have a: "(sint ?v AND 524288 = 0) = (\<not> bit (sint ?v) 19)"
    using and_exp_eq_0_iff_not_bit [of "sint ?v" 19] by simp
  have c: "bit (sint ?v) 19"
    by (simp add: bit_sint_iff bit_or_iff bit_layered)
  from a c show ?thesis by (simp add: WS_EX_LAYERED_def)
qed

lemma set_window_opacity_eq:
  "set_window_opacity os hwnd opacity =
     (case window os hwnd of
        None \<Rightarrow> os
      | Some w \<Rightarrow>
          os\<lparr>window := (window os)
                (hwnd \<mapsto> w\<lparr>exstyle := exstyle w OR word_of_int WS_EX_LAYERED,
                           alpha := Some (ucast opacity)\<rparr>)\<rparr>)"
proof (cases "window os hwnd")
  case None
  then show ?thesis
    by (simp add: set_window_opacity_def SetWindowLongPtrA_def SetLayeredWindowAttributes_def)
next
  case (Some w)
  have flag: "LWA_ALPHA \<noteq> 0"
    by (simp add: LWA_ALPHA_def)
  from Some show ?thesis
    by (simp add: set_window_opacity_def SetWindowLongPtrA_def SetLayeredWindowAttributes_def
        GetWindowLongPtrA_def GetWindowLongPtrW_def layered_marshalled layered_after_or flag)
qed

text \<open>
  Claim C9. \<open>set_window_opacity\<close> changes the extended style of the window it is given
  to the old style with the \<open>WS_EX_LAYERED\<close> bit added, and the extended style of no
  other window: every bit that was set stays set, and a bit that is set afterwards was
  set before or is the \<open>WS_EX_LAYERED\<close> bit. This holds for every opacity value.
\<close>

theorem set_window_opacity_exstyle:
  assumes "window os h = Some w"
  shows "\<exists>w'. window (set_window_opacity os hwnd opacity) h = Some w'
           \<and> exstyle w' = (if h = hwnd then exstyle w OR word_of_int WS_EX_LAYERED
                            else exstyle w)
           \<and> (\<forall>n. bit (exstyle w) n \<longrightarrow> bit (exstyle w') n)
           \<and> (\<forall>n. bit (exstyle w') n \<longrightarrow>
                 bit (exstyle w) n \<or> bit (word_of_int WS_EX_LAYERED :: 32 word) n)"
proof (cases "h = hwnd")
  case True
  with assms show ?thesis
    by (simp add: set_window_opacity_eq bit_or_iff)
next
  case False
  with assms show ?thesis
    by (cases "window os hwnd") (simp_all add: set_window_opacity_eq)
qed

theorem set_window_opacity_exstyle_witness:
  "map_option exstyle (window (set_window_opacity registry_ABC 0x10 128) 0x10) = Some 0x80100
   \<and> map_option exstyle (window (set_window_opacity registry_ABC 0x10 128) 0x20) = Some 0x80
   \<and> map_option alpha (window (set_window_opacity registry_ABC 0x10 128) 0x10) = Some (Some 128)"
proof -
  have a: "window registry_ABC 0x10 = Some window_A"
    by (simp add: registry_ABC_def)
  have b: "window registry_ABC 0x20 = Some window_B"
    by (simp add: registry_ABC_def)
  have c: "map_option alpha (window (set_window_opacity registry_ABC 0x10 128) 0x10)
      = Some (Some 128)"
    by (simp add: set_window_opacity_eq registry_ABC_def)
  from set_window_opacity_exstyle [OF a, of "0x10" 128]
    set_window_opacity_exstyle [OF b, of "0x10" 128] c
  show ?thesis
    by (auto simp: window_A_def window_B_def WS_EX_LAYERED_def)
qed


end
